theory Spec2Isabelle
  imports Main
begin

section \<open>JSON values and the lodash helpers the sources call\<close>

text \<open>
  The sources are TypeScript over untyped JSON data (\<^verbatim>\<open>any\<close>), read and written with
  lodash. A value is one of JavaScript's JSON-shaped values. Numbers are the integral
  ones the program handles (identifiers, counts, millisecond timestamps) plus \<open>NaN\<close>,
  which \<^verbatim>\<open>Date.parse\<close> returns for an unreadable date. An object is the list of its own
  properties in insertion order (JavaScript lists integer-like keys first; that
  reordering is not modelled, and nothing below depends on it). A property whose value
  is \<open>undefined\<close> is a property: \<open>{a: undefined}\<close> and \<open>{}\<close> differ.
\<close>

datatype json =
    JUndef
  | JNull
  | JBool bool
  | JNum int
  | JNaN
  | JStr string
  | JArr "json list"
  | JObj "(string \<times> json) list"

text \<open>\<^verbatim>\<open>obj[key]\<close> for an own property; \<open>undefined\<close> for anything that is not an object
  or has no such property.\<close>

fun get_key :: "json \<Rightarrow> string \<Rightarrow> json" where
  "get_key (JObj fs) k = (case map_of fs k of None \<Rightarrow> JUndef | Some v \<Rightarrow> v)"
| "get_key _ k = JUndef"

text \<open>\<^verbatim>\<open>_.get(obj, 'a.b.c')\<close>, the path given as its list of segments.\<close>

fun lodash_get :: "json \<Rightarrow> string list \<Rightarrow> json" where
  "lodash_get v [] = v"
| "lodash_get v (k # ks) = lodash_get (get_key v k) ks"

text \<open>\<^verbatim>\<open>obj[key] = v\<close>: an existing property keeps its place, a new one goes last.\<close>

fun put_field :: "string \<Rightarrow> json \<Rightarrow> (string \<times> json) list \<Rightarrow> (string \<times> json) list" where
  "put_field k v [] = [(k, v)]"
| "put_field k v ((k', v') # fs) = (if k = k' then (k, v) # fs else (k', v') # put_field k v fs)"

definition json_set :: "json \<Rightarrow> string \<Rightarrow> json \<Rightarrow> json" where
  "json_set obj k v = (case obj of JObj fs \<Rightarrow> JObj (put_field k v fs) | _ \<Rightarrow> obj)"

fun isString :: "json \<Rightarrow> bool" where
  "isString (JStr _) = True"
| "isString _ = False"

fun isArray :: "json \<Rightarrow> bool" where
  "isArray (JArr _) = True"
| "isArray _ = False"

fun is_object :: "json \<Rightarrow> bool" where
  "is_object (JObj _) = True"
| "is_object _ = False"

text \<open>\<^verbatim>\<open>_.isEmpty\<close>: strings, arrays and objects by their size; every other value is empty.\<close>

fun isEmpty :: "json \<Rightarrow> bool" where
  "isEmpty (JStr s) = (s = [])"
| "isEmpty (JArr xs) = (xs = [])"
| "isEmpty (JObj fs) = (fs = [])"
| "isEmpty _ = True"

text \<open>\<^verbatim>\<open>_.size\<close>.\<close>

fun size_json :: "json \<Rightarrow> nat" where
  "size_json (JStr s) = length s"
| "size_json (JArr xs) = length xs"
| "size_json (JObj fs) = length fs"
| "size_json _ = 0"

text \<open>What \<^verbatim>\<open>_.map\<close>, \<^verbatim>\<open>_.groupBy\<close> and \<^verbatim>\<open>_.includes\<close> iterate over: the elements of an
  array, the property values of an object.\<close>

fun elements :: "json \<Rightarrow> json list" where
  "elements (JArr xs) = xs"
| "elements (JObj fs) = map snd fs"
| "elements _ = []"

function string_of_nat :: "nat \<Rightarrow> string" where
  "string_of_nat n =
     (if n < 10 then [''0123456789'' ! n]
      else string_of_nat (n div 10) @ [''0123456789'' ! (n mod 10)])"
  by pat_completeness auto
termination
  by (relation "measure id") auto

declare string_of_nat.simps [simp del]

definition string_of_int :: "int \<Rightarrow> string" where
  "string_of_int i =
     (if i < 0 then CHR ''-'' # string_of_nat (nat (- i)) else string_of_nat (nat i))"

fun join :: "string \<Rightarrow> string list \<Rightarrow> string" where
  "join sep [] = []"
| "join sep [x] = x"
| "join sep (x # y # ys) = x @ sep @ join sep (y # ys)"

text \<open>JavaScript's \<open>ToString\<close>, as a template literal and a property key apply it.\<close>

fun to_string :: "json \<Rightarrow> string" where
  "to_string JUndef = ''undefined''"
| "to_string JNull = ''null''"
| "to_string (JBool b) = (if b then ''true'' else ''false'')"
| "to_string (JNum i) = string_of_int i"
| "to_string JNaN = ''NaN''"
| "to_string (JStr s) = s"
| "to_string (JArr xs) =
     join '','' (map (\<lambda>x. if x = JUndef \<or> x = JNull then [] else to_string x) xs)"
| "to_string (JObj fs) = ''[object Object]''"

text \<open>\<^verbatim>\<open>_.toString\<close>: as \<open>ToString\<close>, but \<open>null\<close> and \<open>undefined\<close> give the empty string.\<close>

definition lodash_toString :: "json \<Rightarrow> string" where
  "lodash_toString v = (if v = JUndef \<or> v = JNull then [] else to_string v)"

text \<open>\<^verbatim>\<open>_.isEqual\<close>: deep equality; objects are compared property by property whatever
  the order, and \<open>NaN\<close> equals \<open>NaN\<close>.\<close>

fun is_equal :: "json \<Rightarrow> json \<Rightarrow> bool"
  and fields_equal :: "(string \<times> json) list \<Rightarrow> (string \<times> json) list \<Rightarrow> bool"
  and elems_equal :: "json list \<Rightarrow> json list \<Rightarrow> bool" where
  "is_equal (JArr xs) w = (case w of JArr ys \<Rightarrow> elems_equal xs ys | _ \<Rightarrow> False)"
| "is_equal (JObj fs) w =
     (case w of JObj gs \<Rightarrow> length fs = length gs \<and> fields_equal fs gs | _ \<Rightarrow> False)"
| "is_equal v w = (v = w)"
| "fields_equal [] gs = True"
| "fields_equal ((k, v) # fs) gs =
     (case map_of gs k of None \<Rightarrow> False | Some w \<Rightarrow> is_equal v w \<and> fields_equal fs gs)"
| "elems_equal [] ys = (ys = [])"
| "elems_equal (x # xs) ys =
     (case ys of [] \<Rightarrow> False | y # ys' \<Rightarrow> is_equal x y \<and> elems_equal xs ys')"

text \<open>The values of a list in first-occurrence order (\<^verbatim>\<open>[...new Set(xs)]\<close>, the keys of
  \<^verbatim>\<open>_.groupBy\<close> and \<^verbatim>\<open>_.keyBy\<close>).\<close>

definition uniq :: "'a list \<Rightarrow> 'a list" where
  "uniq xs = rev (remdups (rev xs))"

text \<open>\<^verbatim>\<open>_.groupBy(xs, iteratee)\<close>: one property per key (the iteratee's value as a property
  key), in first-occurrence order, holding the elements with that key in their order.\<close>

definition groupBy :: "(json \<Rightarrow> json) \<Rightarrow> json list \<Rightarrow> (string \<times> json) list" where
  "groupBy iteratee xs =
     map (\<lambda>k. (k, JArr (filter (\<lambda>x. to_string (iteratee x) = k) xs)))
       (uniq (map (\<lambda>x. to_string (iteratee x)) xs))"

text \<open>
  lodash's \<open>compareAscending\<close>, which \<^verbatim>\<open>_.orderBy\<close> sorts with, on numbers, \<open>null\<close>,
  \<open>undefined\<close> and \<open>NaN\<close>: numbers by value, then \<open>null\<close>, then \<open>undefined\<close>, then \<open>NaN\<close>.
  Operands of the other kinds (JavaScript would coerce them) compare as equal here;
  the program sorts by \<open>kai_state.timestamp\<close>, a number.
\<close>

fun to_number :: "json \<Rightarrow> int option" where
  "to_number (JNum i) = Some i"
| "to_number JNull = Some 0"
| "to_number _ = None"

definition js_less :: "json \<Rightarrow> json \<Rightarrow> bool" where
  "js_less a b = (case (to_number a, to_number b) of (Some x, Some y) \<Rightarrow> x < y | _ \<Rightarrow> False)"

definition compareAscending :: "json \<Rightarrow> json \<Rightarrow> int" where
  "compareAscending v other =
     (if v = other \<and> v \<noteq> JNaN then 0
      else if (other \<noteq> JNull \<and> js_less other v)
            \<or> (v = JNull \<and> other \<noteq> JUndef \<and> other \<noteq> JNaN)
            \<or> (v = JUndef \<and> other \<noteq> JNaN)
            \<or> v = JNaN then 1
      else if (v \<noteq> JNull \<and> js_less v other)
            \<or> (other = JNull \<and> v \<noteq> JUndef \<and> v \<noteq> JNaN)
            \<or> (other = JUndef \<and> v \<noteq> JNaN)
            \<or> other = JNaN then - 1
      else 0)"

text \<open>\<^verbatim>\<open>_.orderBy(xs, crit, 'desc')\<close>: a stable sort, descending in the criterion. The new
  element stood before all those already placed, so it goes before the first one it is
  not smaller than.\<close>

fun insert_desc :: "(json \<Rightarrow> json) \<Rightarrow> json \<Rightarrow> json list \<Rightarrow> json list" where
  "insert_desc crit x [] = [x]"
| "insert_desc crit x (y # ys) =
     (if 0 \<le> compareAscending (crit x) (crit y) then x # y # ys
      else y # insert_desc crit x ys)"

definition orderBy_desc :: "(json \<Rightarrow> json) \<Rightarrow> json list \<Rightarrow> json list" where
  "orderBy_desc crit xs = foldr (insert_desc crit) xs []"

text \<open>\<^verbatim>\<open>_.first\<close>, \<^verbatim>\<open>_.last\<close> and \<^verbatim>\<open>_.nth(xs, -2)\<close>: \<open>undefined\<close> where there is no such
  element.\<close>

fun first :: "json list \<Rightarrow> json" where
  "first [] = JUndef"
| "first (x # xs) = x"

definition last_str :: "string list \<Rightarrow> json" where
  "last_str xs = (if xs = [] then JUndef else JStr (last xs))"

definition nth_from_end2 :: "string list \<Rightarrow> json" where
  "nth_from_end2 xs = (if length xs < 2 then JUndef else JStr (xs ! (length xs - 2)))"

text \<open>\<^verbatim>\<open>_.flatten\<close>: one level.\<close>

fun flatten :: "json list \<Rightarrow> json list" where
  "flatten [] = []"
| "flatten (JArr ys # xs) = ys @ flatten xs"
| "flatten (x # xs) = x # flatten xs"

text \<open>\<^verbatim>\<open>_.split(s, '.')\<close> on the string \<^verbatim>\<open>_.toString(s)\<close>; the result is never empty.\<close>

fun split_on :: "char \<Rightarrow> string \<Rightarrow> string list" where
  "split_on c [] = [[]]"
| "split_on c (x # xs) =
     (if x = c then [] # split_on c xs
      else case split_on c xs of [] \<Rightarrow> [[x]] | w # ws \<Rightarrow> (x # w) # ws)"

definition lodash_split :: "json \<Rightarrow> string list" where
  "lodash_split s = split_on CHR ''.'' (lodash_toString s)"

section \<open>The sub-record merge (customMerge with \_.mergeWith)\<close>

text \<open>
  \<^verbatim>\<open>customMerge\<close> returns the destination in its two cases and otherwise nothing, which
  is \<open>undefined\<close>: lodash then merges by its own rule.
\<close>

definition customMerge :: "json \<Rightarrow> json \<Rightarrow> json" where
  "customMerge presentVaule newValue =
     (if isArray presentVaule \<and> isArray newValue \<and> isEmpty newValue then presentVaule
      else if isString presentVaule \<and> isString newValue \<and> isEmpty newValue then presentVaule
      else JUndef)"

text \<open>
  lodash's \<open>baseMerge\<close>, \<open>baseMergeDeep\<close> and \<open>assignMergeValue\<close> with that customizer.
  \<open>merge_value\<close> is the value \<open>baseMerge\<close> hands to \<open>assignMergeValue\<close> for one
  property: the customizer's answer if it gave one; for an array or a plain-object
  source the recursive merge into the destination value (into a fresh \<open>[]\<close> or \<open>{}\<close> when
  the destination is of another kind); the source value otherwise.
  \<open>assignMergeValue\<close> skips an \<open>undefined\<close> value when the property exists.
  A plain-object source met by an array destination would hang named properties on the
  array, which is no JSON value; the model leaves the array as it is.
\<close>

definition assignMergeValue :: "(string \<times> json) list \<Rightarrow> string \<Rightarrow> json \<Rightarrow> (string \<times> json) list" where
  "assignMergeValue obj k v = (if v = JUndef \<and> k \<in> fst ` set obj then obj else put_field k v obj)"

fun merge_value :: "json \<Rightarrow> json \<Rightarrow> json"
  and baseMerge :: "(string \<times> json) list \<Rightarrow> (string \<times> json) list \<Rightarrow> (string \<times> json) list"
  and baseMerge_array :: "json list \<Rightarrow> json list \<Rightarrow> json list" where
  "merge_value objValue srcValue =
     (let newValue = customMerge objValue srcValue in
      if newValue \<noteq> JUndef then newValue
      else case srcValue of
             JArr ss \<Rightarrow>
               (case objValue of JArr os \<Rightarrow> JArr (baseMerge_array os ss)
                | _ \<Rightarrow> JArr (baseMerge_array [] ss))
           | JObj sf \<Rightarrow>
               (case objValue of JObj ofs \<Rightarrow> JObj (baseMerge ofs sf)
                | JArr os \<Rightarrow> JArr os
                | _ \<Rightarrow> JObj (baseMerge [] sf))
           | _ \<Rightarrow> srcValue)"
| "baseMerge obj [] = obj"
| "baseMerge obj ((k, srcValue) # src) =
     baseMerge (assignMergeValue obj k (merge_value (get_key (JObj obj) k) srcValue)) src"
| "baseMerge_array os [] = os"
| "baseMerge_array [] (s # ss) = merge_value JUndef s # baseMerge_array [] ss"
| "baseMerge_array (x # os) (s # ss) =
     (let v = merge_value x s in if v = JUndef then x else v) # baseMerge_array os ss"

declare merge_value.simps [simp del]

text \<open>\<^verbatim>\<open>_.mergeWith(object, source, customMerge)\<close> with a plain-object source, as the
  handlers call it: the destination is \<open>Object(object)\<close>, a fresh \<open>{}\<close> when \<open>object\<close>
  is \<open>undefined\<close> or \<open>null\<close>.\<close>

definition mergeWith :: "json \<Rightarrow> json \<Rightarrow> json" where
  "mergeWith object source =
     (case source of
        JObj sf \<Rightarrow>
          (case object of
             JObj ofs \<Rightarrow> JObj (baseMerge ofs sf)
           | JArr os \<Rightarrow> JArr os
           | _ \<Rightarrow> JObj (baseMerge [] sf))
      | _ \<Rightarrow> (case object of JObj ofs \<Rightarrow> object | JArr os \<Rightarrow> object | _ \<Rightarrow> JObj []))"

section \<open>The router: thread id and state synthesis\<close>

datatype error =
    NoThreadIdError
  | NoAssociatedHandlerError
  | ValidationError
  | JsTypeError
  | AssertionError
  | ConnectionNotInitialized
  | MongoError
  | KojiError
  | AllAttemptsFailed

text \<open>
  The collaborators that are not among the sources, and the world outside: the SHA-256
  hex digest, \<^verbatim>\<open>Date.parse\<close>, the schema validator behind \<^verbatim>\<open>assert_is_valid(value, name)\<close>,
  the Koji hub query and the table \<^verbatim>\<open>atype_to_hub_map\<close>. The database is shared with other
  processes: before the \<open>n\<close>-th database operation of this process the others have changed
  the collection by \<open>db_others n\<close>, and the operation throws if \<open>db_throws n\<close>.
\<close>

record env =
  sha256_hex :: "string \<Rightarrow> string"
  date_parse :: "json \<Rightarrow> json"
  is_valid :: "string \<Rightarrow> json \<Rightarrow> bool"
  koji_getBuild :: "json \<Rightarrow> json \<Rightarrow> json option"
  atype_to_hub_map :: "(string \<times> json) list"
  db_throws :: "nat \<Rightarrow> bool"
  db_others :: "nat \<Rightarrow> json list \<Rightarrow> json list"

text \<open>
  \<^verbatim>\<open>mkThreadId\<close> (msg\_handlers.ts) and \<^verbatim>\<open>mk_thread_id\<close> (dbMsgHandlers.ts) are the same
  function of the message body. The last statement builds a \<^verbatim>\<open>NoThreadIdError\<close> and
  drops it: there is no \<^verbatim>\<open>throw\<close>, so the function ends without a value.
\<close>

definition thread_id_of_body :: "env \<Rightarrow> json \<Rightarrow> json" where
  "thread_id_of_body e body =
     (let thread_id = lodash_get body [''pipeline'', ''id''] in
      if \<not> isEmpty thread_id \<and> isString thread_id then thread_id
      else
        let run_url = lodash_get body [''run'', ''url''] in
        if \<not> isEmpty run_url \<and> isString run_url
        then JStr (''dummy-thread-'' @ sha256_hex e (to_string run_url))
        else JUndef)"

definition mkThreadId :: "env \<Rightarrow> json \<Rightarrow> json" where
  "mkThreadId e fq_msg = thread_id_of_body e (get_key fq_msg ''body'')"

definition mk_thread_id :: "env \<Rightarrow> json \<Rightarrow> json" where
  "mk_thread_id e broker_msg = thread_id_of_body e (get_key broker_msg ''body'')"

text \<open>The body of \<^verbatim>\<open>makeState\<close> and of \<^verbatim>\<open>mk_state\<close>, from the thread id on.\<close>

definition state_of_message :: "env \<Rightarrow> json \<Rightarrow> json \<Rightarrow> json \<Rightarrow> json \<Rightarrow> error + json" where
  "state_of_message e thread_id topic msg_id body =
     (let version = get_key body ''version'';
          state = last_str (lodash_split topic);
          stage = nth_from_end2 (lodash_split topic);
          timestamp = date_parse e (get_key body ''generated_at'');
          origin = JObj [(''creator'', JStr ''kaijs-loader''), (''reason'', JStr ''broker message'')];
          kai_state0 =
            [(''thread_id'', thread_id), (''msg_id'', msg_id), (''version'', version),
             (''stage'', stage), (''state'', state), (''timestamp'', timestamp),
             (''origin'', origin)];
          namespace = lodash_get body [''test'', ''namespace''];
          type = lodash_get body [''test'', ''type''];
          category = lodash_get body [''test'', ''category''];
          kai_state =
            (if size_json namespace \<noteq> 0 \<and> size_json type \<noteq> 0 \<and> size_json category \<noteq> 0
             then kai_state0 @
                  [(''test_case_name'',
                    JStr (to_string namespace @ ''.'' @ to_string type @ ''.'' @ to_string category))]
             else kai_state0)
      in if \<not> is_valid e ''kai_state'' (JObj kai_state) then Inl ValidationError
         else Inr (JObj [(''broker_msg_body'', body), (''kai_state'', JObj kai_state)]))"

definition makeState :: "env \<Rightarrow> json \<Rightarrow> error + json" where
  "makeState e fq_msg =
     state_of_message e (mkThreadId e fq_msg) (get_key fq_msg ''broker_topic'')
       (get_key fq_msg ''broker_msg_id'') (get_key fq_msg ''body'')"

definition mk_state :: "env \<Rightarrow> json \<Rightarrow> error + json" where
  "mk_state e broker_msg =
     state_of_message e (mk_thread_id e broker_msg) (get_key broker_msg ''address'')
       (get_key broker_msg ''message_id'') (get_key broker_msg ''body'')"

section \<open>Derived fields (actualize\_current\_states)\<close>

definition recent_for_each_thread :: "json list \<Rightarrow> json list" where
  "recent_for_each_thread states =
     map (\<lambda>g. first (orderBy_desc (\<lambda>s. lodash_get s [''kai_state'', ''timestamp'']) (elements g)))
       (map snd (groupBy (\<lambda>s. lodash_get s [''kai_state'', ''thread_id'']) states))"

definition known_states :: "json list \<Rightarrow> json list" where
  "known_states states =
     filter (\<lambda>v. \<not> isEmpty v) (uniq (map (\<lambda>s. lodash_get s [''kai_state'', ''state'']) states))"

definition current_state_of :: "json list \<Rightarrow> (string \<times> json) list" where
  "current_state_of states =
     (let current_state =
            groupBy (\<lambda>s. lodash_get s [''kai_state'', ''state''])
              (flatten (recent_for_each_thread states));
          current_state_empty =
            map (\<lambda>k. (k, JArr [])) (uniq (map to_string (known_states states)))
      in current_state @ filter (\<lambda>kv. fst kv \<notin> fst ` set current_state) current_state_empty)"

definition current_state_lenghts_of :: "(string \<times> json) list \<Rightarrow> (string \<times> json) list" where
  "current_state_lenghts_of current_state =
     map (\<lambda>kv. (fst kv, JNum (int (size_json (snd kv))))) current_state"

definition resultsdb_testcase_of :: "json list \<Rightarrow> json list" where
  "resultsdb_testcase_of states =
     filter (\<lambda>v. \<not> isEmpty v)
       (uniq (map (\<lambda>s. lodash_get s [''kai_state'', ''test_case_name'']) states))"

definition actualize_current_states :: "json \<Rightarrow> json" where
  "actualize_current_states db_artifact =
     (let states = elements (get_key db_artifact ''states'');
          current_state = current_state_of states;
          current_state_lenghts = current_state_lenghts_of current_state;
          resultsdb_testcase = resultsdb_testcase_of states
      in json_set
           (json_set (json_set db_artifact ''current_state'' (JObj current_state))
              ''current_state_lenghts'' (JObj current_state_lenghts))
           ''resultsdb_testcase'' (JArr resultsdb_testcase))"

section \<open>The artifacts collection (db.ts, class Artifacts)\<close>

text \<open>
  The state of an \<^verbatim>\<open>Artifacts\<close> object and of the MongoDB collection behind it: the
  documents (\<open>None\<close> while \<^verbatim>\<open>this.collection\<close> is undefined), the number of database
  operations this process has made (the index into \<open>db_others\<close> and \<open>db_throws\<close>), and
  the next \<open>_id\<close> the server hands out.
\<close>

record artifacts =
  collection :: "json list option"
  ops :: nat
  next_oid :: int

text \<open>What the driver stores: \<open>undefined\<close> is written as \<open>null\<close>.\<close>

fun bson :: "json \<Rightarrow> json" where
  "bson JUndef = JNull"
| "bson (JArr xs) = JArr (map bson xs)"
| "bson (JObj fs) = JObj (map (\<lambda>kv. (fst kv, bson (snd kv))) fs)"
| "bson v = v"

text \<open>A query \<open>{k: v, ...}\<close> of equalities on scalar fields: a missing field matches
  \<open>null\<close>.\<close>

definition matches :: "(string \<times> json) list \<Rightarrow> json \<Rightarrow> bool" where
  "matches query doc = list_all (\<lambda>kv. bson (get_key doc (fst kv)) = bson (snd kv)) query"

text \<open>The start of a database operation: the other processes have had their turn, and the
  operation counts.\<close>

definition db_turn :: "env \<Rightarrow> artifacts \<Rightarrow> artifacts" where
  "db_turn e a = a\<lparr>collection := map_option (db_others e (ops a)) (collection a), ops := ops a + 1\<rparr>"

text \<open>
  \<^verbatim>\<open>findOneAndUpdate({type, aid}, {$setOnInsert: {type, aid, _version: 1}},
  {returnOriginal: false, upsert: true})\<close>, then \<^verbatim>\<open>assert_is_valid(document, 'db_artifact')\<close>.
\<close>

definition findOrCreate :: "env \<Rightarrow> artifacts \<Rightarrow> json \<Rightarrow> json \<Rightarrow> (error + json) \<times> artifacts" where
  "findOrCreate e a type aid =
     (case collection a of
        None \<Rightarrow> (Inl ConnectionNotInitialized, a)
      | Some _ \<Rightarrow>
          let a1 = db_turn e a in
          if db_throws e (ops a) then (Inl MongoError, a1)
          else
            let docs = (case collection a1 of None \<Rightarrow> [] | Some ds \<Rightarrow> ds) in
            case find (matches [(''type'', type), (''aid'', aid)]) docs of
              Some document \<Rightarrow>
                (if is_valid e ''db_artifact'' document then Inr document else Inl ValidationError, a1)
            | None \<Rightarrow>
                let document =
                      JObj [(''_id'', JNum (next_oid a1)), (''type'', bson type), (''aid'', bson aid),
                            (''_version'', JNum 1)];
                    a2 = a1\<lparr>collection := Some (docs @ [document]), next_oid := next_oid a1 + 1\<rparr>
                in (if is_valid e ''db_artifact'' document then Inr document else Inl ValidationError,
                    a2))"

text \<open>
  Modelled from the spec: the module \<^verbatim>\<open>./paths\<close> (\<^verbatim>\<open>paths_mongodb_pack_array\<close>,
  \<^verbatim>\<open>drop_empty_paths\<close>, \<^verbatim>\<open>path_mongodb_to_lodash\<close>) is not among the sources. By the spec
  the update set is over leaf paths and arrays are written whole, so the paths of a
  document are the paths to its values that are not plain objects; by the comment at the
  call, \<^verbatim>\<open>drop_empty_paths\<close> drops the paths that resolve to \<open>null\<close> or \<open>undefined\<close>. A path
  is the list of its keys, so the translation from MongoDB's dotted form to lodash's is
  the identity (keys hold no dot).
\<close>

fun paths_mongodb_pack_array :: "json \<Rightarrow> string list list" where
  "paths_mongodb_pack_array (JObj fs) =
     concat (map (\<lambda>kv. map ((#) (fst kv)) (paths_mongodb_pack_array (snd kv))) fs)"
| "paths_mongodb_pack_array v = [[]]"

definition drop_empty_paths :: "string list list \<Rightarrow> json \<Rightarrow> string list list" where
  "drop_empty_paths paths obj =
     filter (\<lambda>p. lodash_get obj p \<noteq> JNull \<and> lodash_get obj p \<noteq> JUndef) paths"

definition path_mongodb_to_lodash :: "string list \<Rightarrow> string list" where
  "path_mongodb_to_lodash p = p"

text \<open>\<^verbatim>\<open>_.differenceWith(xs, ys, comparator)\<close>: the elements of \<open>xs\<close> that the comparator
  pairs with no element of \<open>ys\<close>.\<close>

definition differenceWith :: "'a list \<Rightarrow> 'b list \<Rightarrow> ('a \<Rightarrow> 'b \<Rightarrow> bool) \<Rightarrow> 'a list" where
  "differenceWith xs ys comparator = filter (\<lambda>x. \<not> list_ex (comparator x) ys) xs"

text \<open>\<^verbatim>\<open>Artifacts.mk_update_set\<close>. The result of \<^verbatim>\<open>_.fromPairs\<close> is kept as the list of
  its pairs (the paths are distinct).\<close>

definition mk_update_set :: "json \<Rightarrow> json \<Rightarrow> (string list \<times> json) list" where
  "mk_update_set present newdata =
     (let paths_new = drop_empty_paths (paths_mongodb_pack_array newdata) newdata;
          paths_present = drop_empty_paths (paths_mongodb_pack_array present) present;
          paths_update =
            differenceWith paths_new paths_present
              (\<lambda>new_path old_path.
                 let new_path_lodash = path_mongodb_to_lodash new_path;
                     old_path_lodash = path_mongodb_to_lodash old_path;
                     new_value = lodash_get newdata new_path_lodash;
                     old_value = lodash_get present old_path_lodash
                 in is_equal new_value old_value)
      in map (\<lambda>p. (p, lodash_get newdata p)) paths_update)"

text \<open>MongoDB's \<open>$set\<close> of one dotted path: missing embedded documents are created; a
  path through a value that is no document is an error.\<close>

fun set_path :: "json \<Rightarrow> string list \<Rightarrow> json \<Rightarrow> json option" where
  "set_path d [] v = Some v"
| "set_path (JObj fs) (k # ks) v =
     map_option (\<lambda>x. JObj (put_field k x fs)) (set_path (get_key (JObj fs) k) ks v)"
| "set_path JUndef (k # ks) v = map_option (\<lambda>x. JObj [(k, x)]) (set_path JUndef ks v)"
| "set_path _ (k # ks) v = None"

fun set_paths :: "json \<Rightarrow> (string list \<times> json) list \<Rightarrow> json option" where
  "set_paths d [] = Some d"
| "set_paths d ((p, v) # us) =
     (case set_path d p (bson v) of None \<Rightarrow> None | Some d' \<Rightarrow> set_paths d' us)"

text \<open>\<open>$inc: {_version: 1}\<close>: a missing field starts from 0; a field that is no number is
  an error.\<close>

definition inc_version :: "json \<Rightarrow> json option" where
  "inc_version d =
     (case get_key d ''_version'' of
        JNum n \<Rightarrow> Some (json_set d ''_version'' (JNum (n + 1)))
      | JUndef \<Rightarrow> Some (json_set d ''_version'' (JNum 1))
      | _ \<Rightarrow> None)"

fun replace_first :: "('a \<Rightarrow> bool) \<Rightarrow> 'a \<Rightarrow> 'a list \<Rightarrow> 'a list" where
  "replace_first P y [] = []"
| "replace_first P y (x # xs) = (if P x then y # xs else x # replace_first P y xs)"

text \<open>
  The compare-and-swap of \<^verbatim>\<open>add\<close>:
  \<^verbatim>\<open>findOneAndUpdate(_.pick(db_entry, '_id', '_version'), {$inc: {_version: 1}, $set: update_set},
  {returnOriginal: false})\<close> inside the \<^verbatim>\<open>try\<close>, with the two assertions. The result is the
  new value of \<^verbatim>\<open>modifiedDocument\<close>: the updated document, or \<open>None\<close> when the driver threw
  (also for a \<open>$set\<close> of \<open>_version\<close> itself, which conflicts with the \<open>$inc\<close>) or no document
  matched the filter.
\<close>

definition pick :: "json \<Rightarrow> string list \<Rightarrow> (string \<times> json) list" where
  "pick obj ks = map (\<lambda>k. (k, get_key obj k)) (filter (\<lambda>k. get_key obj k \<noteq> JUndef) ks)"

definition compare_and_swap ::
  "env \<Rightarrow> artifacts \<Rightarrow> json \<Rightarrow> (string list \<times> json) list \<Rightarrow> json option \<times> artifacts" where
  "compare_and_swap e a db_entry update_set =
     (let a1 = db_turn e a;
          docs = (case collection a1 of None \<Rightarrow> [] | Some ds \<Rightarrow> ds);
          query = pick db_entry [''_id'', ''_version'']
      in if db_throws e (ops a) \<or> [''_version''] \<in> fst ` set update_set then (None, a1)
         else case find (matches query) docs of
                None \<Rightarrow> (None, a1)
              | Some d \<Rightarrow>
                  (case set_paths d update_set of
                     None \<Rightarrow> (None, a1)
                   | Some d1 \<Rightarrow>
                       (case inc_version d1 of
                          None \<Rightarrow> (None, a1)
                        | Some d2 \<Rightarrow>
                            (Some d2,
                             a1\<lparr>collection := Some (replace_first (matches query) d2 docs)\<rparr>))))"

section \<open>The handlers (dbMsgHandlers.ts)\<close>

text \<open>Reading a property of \<open>undefined\<close> or \<open>null\<close> is a \<^verbatim>\<open>TypeError\<close>.\<close>

definition nullish :: "json \<Rightarrow> bool" where
  "nullish v \<longleftrightarrow> v = JUndef \<or> v = JNull"

definition handler_buildsys_tag :: "string \<Rightarrow> env \<Rightarrow> artifacts \<Rightarrow> json \<Rightarrow> (error + json) \<times> artifacts" where
  "handler_buildsys_tag type e a msg =
     (case map_of (atype_to_hub_map e) type of
        None \<Rightarrow> (Inl AssertionError, a)
      | Some hub_name \<Rightarrow>
          let tag_msg = get_key msg ''body'' in
          if nullish tag_msg then (Inl JsTypeError, a)
          else
            let build_id = get_key tag_msg ''build_id'' in
            case koji_getBuild e hub_name build_id of
              None \<Rightarrow> (Inl KojiError, a)
            | Some buildInfo \<Rightarrow>
                if \<not> is_valid e ''koji_build_info'' buildInfo then (Inl ValidationError, a)
                else
                  let task_id = get_key buildInfo ''task_id'' in
                  case findOrCreate e a (JStr type) (JStr (lodash_toString task_id)) of
                    (Inl err, a1) \<Rightarrow> (Inl err, a1)
                  | (Inr artifact, a1) \<Rightarrow>
                      let rpm_build =
                            JObj [(''task_id'', task_id), (''build_id'', build_id),
                                  (''nvr'', get_key buildInfo ''nvr''),
                                  (''issuer'', get_key tag_msg ''owner''),
                                  (''source'', lodash_get buildInfo [''extra'', ''source'', ''original_url'']),
                                  (''scratch'', JBool False),
                                  (''component'', get_key buildInfo ''name'')]
                      in (Inr (json_set artifact ''rpm_build''
                                 (mergeWith (get_key artifact ''rpm_build'') rpm_build)), a1))"

definition handler_rpm_build_test_common :: "env \<Rightarrow> artifacts \<Rightarrow> json \<Rightarrow> (error + json) \<times> artifacts" where
  "handler_rpm_build_test_common e a broker_msg =
     (let message_id = get_key broker_msg ''message_id'';
          msg = get_key broker_msg ''body'' in
      if nullish msg then (Inl JsTypeError, a)
      else
        let artifact = get_key msg ''artifact'' in
        if nullish artifact then (Inl JsTypeError, a)
        else
          let type = get_key artifact ''type'';
              task_id = get_key artifact ''id'' in
          case findOrCreate e a type (JStr (lodash_toString task_id)) of
            (Inl err, a1) \<Rightarrow> (Inl err, a1)
          | (Inr db_artifact, a1) \<Rightarrow>
              let rpm_build =
                    JObj [(''task_id'', task_id), (''nvr'', get_key artifact ''nvr''),
                          (''source'', get_key artifact ''source''),
                          (''issuer'', get_key artifact ''issuer''),
                          (''scratch'', get_key artifact ''scratch''),
                          (''component'', get_key artifact ''component'')]
              in case mk_state e broker_msg of
                   Inl err \<Rightarrow> (Inl err, a1)
                 | Inr artifact_new_state \<Rightarrow>
                     let states0 = get_key db_artifact ''states'';
                         states = (if nullish states0 \<or> states0 = JNaN then JArr [] else states0);
                         db_artifact1 = json_set db_artifact ''states'' states;
                         msg_ids = map (\<lambda>s. lodash_get s [''kai_state'', ''msg_id'']) (elements states)
                     in if message_id \<notin> set msg_ids
                        then (case states of
                                JArr xs \<Rightarrow>
                                  let db_artifact2 =
                                        actualize_current_states
                                          (json_set db_artifact1 ''states'' (JArr (xs @ [artifact_new_state])))
                                  in (Inr (json_set db_artifact2 ''rpm_build''
                                             (mergeWith (get_key db_artifact2 ''rpm_build'') rpm_build)),
                                      a1)
                              | _ \<Rightarrow> (Inl JsTypeError, a1))
                        else (Inr (json_set db_artifact1 ''rpm_build''
                                     (mergeWith (get_key db_artifact1 ''rpm_build'') rpm_build)),
                              a1))"

text \<open>A regular expression \<^verbatim>\<open>/^...$/\<close> whose only operator is the dot, which stands for any
  one character but a line break. The dots of the topic patterns are not escaped.\<close>

fun dots_match :: "string \<Rightarrow> string \<Rightarrow> bool" where
  "dots_match [] [] = True"
| "dots_match (p # ps) (c # cs) =
     ((if p = CHR ''.'' then c \<noteq> CHR 0x0A \<and> c \<noteq> CHR 0x0D else p = c) \<and> dots_match ps cs)"
| "dots_match _ _ = False"

text \<open>\<^verbatim>\<open>get_handler\<close>: the first registered handler whose pattern matches the topic.\<close>

definition get_handler ::
  "json \<Rightarrow> (env \<Rightarrow> artifacts \<Rightarrow> json \<Rightarrow> (error + json) \<times> artifacts) option" where
  "get_handler broker_topic =
     (let topic = to_string broker_topic in
      if dots_match ''org.centos.prod.buildsys.tag'' topic
      then Some (handler_buildsys_tag ''koji-build-cs'')
      else if dots_match ''org.fedoraproject.prod.buildsys.tag'' topic
      then Some (handler_buildsys_tag ''koji-build'')
      else if list_ex (\<lambda>w. dots_match (''org.centos.prod.ci.koji-build.test.'' @ w) topic)
                [''complete'', ''queued'', ''running'', ''error'']
      then Some handler_rpm_build_test_common
      else None)"

section \<open>The read-modify-write loop (Artifacts.add)\<close>

text \<open>
  The \<^verbatim>\<open>while\<close> loop of \<^verbatim>\<open>add\<close>, entered with \<^verbatim>\<open>modifiedDocument\<close> null. Beside the result
  and the final state it returns how many times it invoked the handler.
\<close>

function add_loop ::
  "env \<Rightarrow> (env \<Rightarrow> artifacts \<Rightarrow> json \<Rightarrow> (error + json) \<times> artifacts) \<Rightarrow> json \<Rightarrow>
   artifacts \<Rightarrow> nat \<Rightarrow> nat \<Rightarrow> (error + json) \<times> artifacts \<times> nat" where
  "add_loop e handler message a retries_left invoked =
     (if retries_left > 1 then
        (if retries_left - 1 = 0 then (Inl AllAttemptsFailed, a, invoked)
         else
           case handler e a message of
             (Inl err, a1) \<Rightarrow> (Inl err, a1, invoked + 1)
           | (Inr artifact, a1) \<Rightarrow>
               if \<not> is_valid e ''db_artifact'' artifact then (Inl ValidationError, a1, invoked + 1)
               else
                 case findOrCreate e a1 (get_key artifact ''type'') (get_key artifact ''aid'') of
                   (Inl err, a2) \<Rightarrow> add_loop e handler message a2 (retries_left - 1) (invoked + 1)
                 | (Inr db_entry, a2) \<Rightarrow>
                     let update_set = mk_update_set db_entry artifact in
                     if update_set = [] then (Inr artifact, a2, invoked + 1)
                     else
                       case compare_and_swap e a2 db_entry update_set of
                         (Some modifiedDocument, a3) \<Rightarrow> (Inr modifiedDocument, a3, invoked + 1)
                       | (None, a3) \<Rightarrow>
                           add_loop e handler message a3 (retries_left - 1) (invoked + 1))
      else (Inl AllAttemptsFailed, a, invoked))"
  by pat_completeness auto
termination
  by (relation "measure (\<lambda>(e, handler, message, a, retries_left, invoked). retries_left)") auto

declare add_loop.simps [simp del]

definition add :: "env \<Rightarrow> artifacts \<Rightarrow> json \<Rightarrow> (error + json) \<times> artifacts \<times> nat" where
  "add e a message =
     (case collection a of
        None \<Rightarrow> (Inl ConnectionNotInitialized, a, 0)
      | Some _ \<Rightarrow>
          (case get_handler (get_key message ''broker_topic'') of
             None \<Rightarrow> (Inl NoAssociatedHandlerError, a, 0)
           | Some handler \<Rightarrow> add_loop e handler message a 30 0))"

definition add_to_db :: "env \<Rightarrow> artifacts \<Rightarrow> json \<Rightarrow> (error + json) \<times> artifacts \<times> nat" where
  "add_to_db e a message =
     (if \<not> is_valid e (to_string (get_key message ''broker_topic'')) (get_key message ''body'')
      then (Inl ValidationError, a, 0)
      else add e a message)"

text \<open>A world for the scenarios: the schema validator accepts everything, no other process
  writes, the database never throws; the date parser reads a number of milliseconds.\<close>

definition quiet :: env where
  "quiet =
     \<lparr>sha256_hex = (\<lambda>s. s), date_parse = (\<lambda>v. case v of JNum n \<Rightarrow> JNum n | _ \<Rightarrow> JNaN),
      is_valid = (\<lambda>name v. True), koji_getBuild = (\<lambda>hub build_id. None),
      atype_to_hub_map = [], db_throws = (\<lambda>n. False), db_others = (\<lambda>n docs. docs)\<rparr>"

definition empty_db :: artifacts where
  "empty_db = \<lparr>collection = Some [], ops = 0, next_oid = 100\<rparr>"

section \<open>The bulk loader (loader\_opensearch.ts, start)\<close>

text \<open>
  One iteration of \<^verbatim>\<open>while (true)\<close> pops one file-queue entry. What the world answers in
  that iteration is the input: the pop fails, or it yields an entry, the clock reading
  \<^verbatim>\<open>new Date()\<close> (milliseconds) and the outcome \<^verbatim>\<open>bulkUpdate\<close> would have if it is
  called. \<^verbatim>\<open>tpop\<close> blocks while the queue is empty, so silence is the absence of an input.
\<close>

datatype bulk_outcome = BulkOk | BulkError | BulkNonError

datatype pop = PopError | Popped int json bulk_outcome

datatype effect = Commit json | Rollback json | BulkUpdate "json list" | Exit nat

text \<open>The collaborators that are not part of the file: the \<^verbatim>\<open>fq_msg\<close> schema check,
  \<^verbatim>\<open>getMsgUpserts\<close> (taken to return), and the byte length of a JSON serialisation inside
  \<^verbatim>\<open>getObjectSize\<close>. The file queue's \<^verbatim>\<open>commit\<close> and \<^verbatim>\<open>rollback\<close> are taken to succeed; they
  are recorded as effects, in the order the loop makes them.\<close>

record loader_env =
  fq_msg_valid :: "json \<Rightarrow> bool"
  getMsgUpserts :: "json \<Rightarrow> json list"
  getObjectSize :: "json \<Rightarrow> int"

record loader_state =
  fqEntries :: "json list"
  bulkUpserts :: "json list"
  bulkSizeBytes :: int
  prevMsgTime :: int
  effects :: "effect list"
  exited :: "nat option"

definition bulkSecondsThreshold :: int where
  "bulkSecondsThreshold = 3"

definition bulkMaxEntries :: nat where
  "bulkMaxEntries = 100"

definition bulkMaxSize :: int where
  "bulkMaxSize = 1024 * 1024 * 1024 * 50"

definition loader_init :: "int \<Rightarrow> loader_state" where
  "loader_init now =
     \<lparr>fqEntries = [], bulkUpserts = [], bulkSizeBytes = 0, prevMsgTime = now,
      effects = [], exited = None\<rparr>"

text \<open>\<^verbatim>\<open>secondsBetweenMessages < bulkSecondsThreshold\<close> with
  \<^verbatim>\<open>secondsBetweenMessages = (newMsgTime - prevMsgTime) / 1000\<close> is the comparison of the
  millisecond difference with \<open>1000 * bulkSecondsThreshold\<close>.\<close>

definition keep_accumulating :: "int \<Rightarrow> nat \<Rightarrow> int \<Rightarrow> bool" where
  "keep_accumulating gap_ms n_upserts size_bytes \<longleftrightarrow>
     gap_ms < 1000 * bulkSecondsThreshold \<and> n_upserts < bulkMaxEntries \<and> size_bytes < bulkMaxSize"

definition flush :: "loader_state \<Rightarrow> bulk_outcome \<Rightarrow> loader_state" where
  "flush st outcome =
     (let called = effects st @ [BulkUpdate (bulkUpserts st)] in
      case outcome of
        BulkOk \<Rightarrow>
          st\<lparr>bulkUpserts := [], bulkSizeBytes := 0, fqEntries := [],
             effects := called @ map Commit (fqEntries st)\<rparr>
      | BulkError \<Rightarrow>
          st\<lparr>effects := called @ map Rollback (fqEntries st) @ [Exit 1], exited := Some 1\<rparr>
      | BulkNonError \<Rightarrow>
          st\<lparr>effects := called @ [Exit 1], exited := Some 1\<rparr>)"

definition loader_step :: "loader_env \<Rightarrow> loader_state \<Rightarrow> pop \<Rightarrow> loader_state" where
  "loader_step env st ev =
     (case ev of
        PopError \<Rightarrow> st\<lparr>effects := effects st @ [Exit 1], exited := Some 1\<rparr>
      | Popped newMsgTime fq_entry outcome \<Rightarrow>
          if \<not> fq_msg_valid env fq_entry
          then st\<lparr>effects := effects st @ [Commit fq_entry]\<rparr>
          else
            let gap_ms = newMsgTime - prevMsgTime st;
                msgUpserts = getMsgUpserts env fq_entry;
                upsertsSizeBytes =
                  sum_list (map (\<lambda>upsert. getObjectSize env (get_key upsert ''upsertDoc'')) msgUpserts);
                st1 = st\<lparr>prevMsgTime := newMsgTime,
                         bulkSizeBytes := bulkSizeBytes st + upsertsSizeBytes,
                         bulkUpserts := bulkUpserts st @ msgUpserts,
                         fqEntries := fqEntries st @ [fq_entry]\<rparr>
            in if keep_accumulating gap_ms (length (bulkUpserts st1)) (bulkSizeBytes st1)
               then st1
               else flush st1 outcome)"

fun loader_run :: "loader_env \<Rightarrow> loader_state \<Rightarrow> pop list \<Rightarrow> loader_state" where
  "loader_run env st [] = st"
| "loader_run env st (ev # evs) =
     (if exited st \<noteq> None then st else loader_run env (loader_step env st ev) evs)"

text \<open>The bulk calls made so far, in order.\<close>

fun bulk_calls :: "effect list \<Rightarrow> json list list" where
  "bulk_calls [] = []"
| "bulk_calls (BulkUpdate us # es) = us # bulk_calls es"
| "bulk_calls (_ # es) = bulk_calls es"

text \<open>A concrete loader for the scenarios: every message is schema-valid exactly when it
  is an object, contributes itself as its one upsert, and every document counts 10 bytes.\<close>

definition demo_env :: loader_env where
  "demo_env = \<lparr>fq_msg_valid = is_object, getMsgUpserts = (\<lambda>m. [m]), getObjectSize = (\<lambda>_. 10)\<rparr>"

definition demo_msg :: "string \<Rightarrow> json" where
  "demo_msg i = JObj [(''fq_msg_id'', JStr i)]"

text \<open>The loop invariant behind C9: only schema-valid entries are pending or rolled back.\<close>

definition entries_valid :: "loader_env \<Rightarrow> loader_state \<Rightarrow> bool" where
  "entries_valid env st \<longleftrightarrow>
     list_all (fq_msg_valid env) (fqEntries st) \<and>
     list_all (\<lambda>x. case x of Rollback m \<Rightarrow> fq_msg_valid env m | _ \<Rightarrow> True) (effects st)"

section \<open>Notions used to state the properties, and the scenarios\<close>

text \<open>A non-empty string, the test both thread-id sources must pass.\<close>

definition has_text :: "json \<Rightarrow> bool" where
  "has_text v \<longleftrightarrow> isString v \<and> \<not> isEmpty v"

text \<open>JSON data proper: no object has a key twice.\<close>

fun wf_json :: "json \<Rightarrow> bool" where
  "wf_json (JObj fs) = (distinct (map fst fs) \<and> list_all (\<lambda>kv. wf_json (snd kv)) fs)"
| "wf_json (JArr xs) = list_all wf_json xs"
| "wf_json _ = True"

fun is_container :: "json \<Rightarrow> bool" where
  "is_container (JObj _) = True"
| "is_container (JArr _) = True"
| "is_container _ = False"

text \<open>An envelope with neither \<open>pipeline.id\<close> nor \<open>run.url\<close>.\<close>

definition no_thread_msg :: json where
  "no_thread_msg =
     JObj [(''broker_topic'', JStr ''org.centos.prod.ci.koji-build.test.queued''),
           (''broker_msg_id'', JStr ''ID:1''),
           (''address'', JStr ''org.centos.prod.ci.koji-build.test.queued''),
           (''message_id'', JStr ''ID:1''),
           (''body'', JObj [(''generated_at'', JNum 1640995200000)])]"

text \<open>The test-queued envelope of the spec's scenario 2 for the Koji task \<open>task\<close>, carrying
  the fields both \<^verbatim>\<open>add\<close> (\<open>broker_topic\<close>) and the handler (\<open>address\<close>, \<open>message_id\<close>) read;
  \<open>generated_at\<close> is given in milliseconds, which the scenarios' date parser passes on.\<close>

definition msg_queued :: "int \<Rightarrow> json" where
  "msg_queued task =
     JObj [(''broker_topic'', JStr ''org.centos.prod.ci.koji-build.test.queued''),
           (''broker_msg_id'', JStr ''ID:1''),
           (''address'', JStr ''org.centos.prod.ci.koji-build.test.queued''),
           (''message_id'', JStr ''ID:1''),
           (''body'',
            JObj [(''version'', JStr ''0.2.1''),
                  (''artifact'', JObj [(''type'', JStr ''koji-build''), (''id'', JNum task)]),
                  (''pipeline'', JObj [(''id'', JStr ''PIPE-1'')]),
                  (''generated_at'', JNum 1640995200000),
                  (''test'', JObj [(''namespace'', JStr ''x''), (''type'', JStr ''y''),
                                   (''category'', JStr ''z'')])])]"

text \<open>A database whose compare-and-swap always throws: each attempt of \<^verbatim>\<open>add\<close> makes three
  operations (the handler's \<^verbatim>\<open>findOrCreate\<close>, the re-read, the update), and every third
  one fails.\<close>

definition failing_cas :: env where
  "failing_cas = quiet\<lparr>db_throws := (\<lambda>n. n mod 3 = 2)\<rparr>"

text \<open>The persisted document after a test-queued event and the proposal after the
  test-complete event of the same thread, cut down to the fields that matter.\<close>

definition doc_after_queued :: json where
  "doc_after_queued =
     JObj [(''_id'', JNum 100), (''type'', JStr ''koji-build''), (''aid'', JStr ''42''),
           (''_version'', JNum 2), (''current_state_lenghts'', JObj [(''queued'', JNum 1)])]"

definition proposal_after_complete :: json where
  "proposal_after_complete =
     JObj [(''_id'', JNum 100), (''type'', JStr ''koji-build''), (''aid'', JStr ''42''),
           (''_version'', JNum 2),
           (''current_state_lenghts'', JObj [(''complete'', JNum 1), (''queued'', JNum 0)])]"

text \<open>The versions of the documents of a collection, in order.\<close>

definition versions :: "artifacts \<Rightarrow> json list" where
  "versions a = map (\<lambda>d. get_key d ''_version'') (case collection a of None \<Rightarrow> [] | Some ds \<Rightarrow> ds)"

text \<open>A stored artifact document and a collection holding just it.\<close>

definition stored_doc :: json where
  "stored_doc =
     JObj [(''_id'', JNum 100), (''type'', JStr ''koji-build''), (''aid'', JStr ''42''),
           (''_version'', JNum 7), (''rpm_build'', JObj [(''task_id'', JNum 42)])]"

definition db_with_doc :: artifacts where
  "db_with_doc = \<lparr>collection = Some [stored_doc], ops = 0, next_oid = 101\<rparr>"

text \<open>The thread an entry of \<open>states\<close> belongs to (its \<open>kai_state.thread_id\<close> as the grouping
  key), its \<open>kai_state.state\<close> and its \<open>kai_state.timestamp\<close>.\<close>

definition thread_key :: "json \<Rightarrow> string" where
  "thread_key s = to_string (lodash_get s [''kai_state'', ''thread_id''])"

definition state_value :: "json \<Rightarrow> json" where
  "state_value s = lodash_get s [''kai_state'', ''state'']"

definition timestamp_of :: "json \<Rightarrow> json" where
  "timestamp_of s = lodash_get s [''kai_state'', ''timestamp'']"

text \<open>The properties of an object, and the entries of all the buckets of a
  \<open>current_state\<close> object.\<close>

fun fields_of :: "json \<Rightarrow> (string \<times> json) list" where
  "fields_of (JObj fs) = fs"
| "fields_of _ = []"

definition bucket_entries :: "json \<Rightarrow> json set" where
  "bucket_entries cs = (\<Union>kb \<in> set (fields_of cs). set (elements (snd kb)))"

text \<open>An entry of \<open>states\<close>, and two documents: one with two threads, one whose single
  entry has the empty string as its state.\<close>

definition state_entry :: "string \<Rightarrow> string \<Rightarrow> string \<Rightarrow> int \<Rightarrow> json" where
  "state_entry mid tid state ts =
     JObj [(''kai_state'',
            JObj [(''thread_id'', JStr tid), (''msg_id'', JStr mid), (''state'', JStr state),
                  (''timestamp'', JNum ts)])]"

definition doc_two_threads :: json where
  "doc_two_threads =
     JObj [(''states'',
            JArr [state_entry ''m1'' ''t1'' ''queued'' 1, state_entry ''m2'' ''t1'' ''complete'' 5,
                  state_entry ''m3'' ''t2'' ''running'' 3])]"

definition doc_empty_state :: json where
  "doc_empty_state = JObj [(''states'', JArr [state_entry ''m1'' ''t1'' [] 1])]"

text \<open>A collection whose one document already holds the state of message \<open>ID:1\<close>.\<close>

definition doc_with_state :: json where
  "doc_with_state =
     JObj [(''_id'', JNum 100), (''type'', JStr ''koji-build''), (''aid'', JStr ''42''),
           (''_version'', JNum 2),
           (''states'', JArr [state_entry ''ID:1'' ''PIPE-1'' ''queued'' 1640995200000])]"

definition db_with_state :: artifacts where
  "db_with_state = \<lparr>collection = Some [doc_with_state], ops = 0, next_oid = 101\<rparr>"

section \<open>Properties of the bulk loader\<close>

lemma entries_valid_step:
  "entries_valid env st \<Longrightarrow> entries_valid env (loader_step env st ev)"
  by (cases ev)
     (auto simp: entries_valid_def loader_step_def flush_def Let_def list_all_iff
           split: bulk_outcome.splits effect.splits)

lemma entries_valid_run:
  "entries_valid env st \<Longrightarrow> entries_valid env (loader_run env st evs)"
  by (induction evs arbitrary: st) (auto simp: entries_valid_step)

lemma entries_valid_init: "entries_valid env (loader_init t0)"
  by (simp add: entries_valid_def loader_init_def)

lemma bulk_calls_append: "bulk_calls (xs @ ys) = bulk_calls xs @ bulk_calls ys"
  by (induction xs rule: bulk_calls.induct) auto

lemma bulk_calls_map_Commit: "bulk_calls (map Commit xs) = []"
  by (induction xs) auto

lemma bulk_calls_map_Rollback: "bulk_calls (map Rollback xs) = []"
  by (induction xs) auto

lemma bulk_calls_flush:
  "bulk_calls (effects (flush st out)) = bulk_calls (effects st) @ [bulkUpserts st]"
  by (cases out)
     (simp_all add: flush_def Let_def bulk_calls_append bulk_calls_map_Commit
        bulk_calls_map_Rollback)

text \<open>
  C9. A popped entry that fails the \<open>fq_msg\<close> schema check is committed at once and the
  loop goes on: the step changes nothing but the commit (the batch, the pending entries,
  the byte count and the time of the previous message stay as they were, and no other
  effect happens: the loader has no sideline store), and in no run is such an entry among
  the pending entries or ever rolled back.
\<close>

theorem invalid_entry_committed_and_dropped:
  assumes "\<not> fq_msg_valid env e"
  shows "loader_step env st (Popped t e out) = st\<lparr>effects := effects st @ [Commit e]\<rparr>
       \<and> e \<notin> set (fqEntries (loader_run env (loader_init t0) evs))
       \<and> Rollback e \<notin> set (effects (loader_run env (loader_init t0) evs))"
proof -
  have inv: "entries_valid env (loader_run env (loader_init t0) evs)"
    by (rule entries_valid_run [OF entries_valid_init])
  have a: "e \<notin> set (fqEntries (loader_run env (loader_init t0) evs))"
    using inv assms by (auto simp: entries_valid_def list_all_iff)
  have b: "Rollback e \<notin> set (effects (loader_run env (loader_init t0) evs))"
    using inv assms by (auto simp: entries_valid_def list_all_iff split: effect.splits)
  show ?thesis using assms a b by (simp add: loader_step_def)
qed

theorem invalid_entry_committed_and_dropped_witness:
  "loader_step demo_env (loader_init 0) (Popped 5 JNull BulkOk)
     = (loader_init 0)\<lparr>effects := [Commit JNull]\<rparr>
   \<and> JNull \<notin> set (fqEntries (loader_run demo_env (loader_init 0)
        [Popped 0 (demo_msg ''1'') BulkOk, Popped 400 JNull BulkOk,
         Popped 4800 (demo_msg ''3'') BulkError]))
   \<and> Rollback JNull \<notin> set (effects (loader_run demo_env (loader_init 0)
        [Popped 0 (demo_msg ''1'') BulkOk, Popped 400 JNull BulkOk,
         Popped 4800 (demo_msg ''3'') BulkError]))"
proof -
  have inv: "\<not> fq_msg_valid demo_env JNull"
    by (simp add: demo_env_def)
  show ?thesis
    using invalid_entry_committed_and_dropped [OF inv, of "loader_init 0" 5 BulkOk 0
        "[Popped 0 (demo_msg ''1'') BulkOk, Popped 400 JNull BulkOk,
          Popped 4800 (demo_msg ''3'') BulkError]"]
    by (simp add: loader_init_def)
qed




section \<open>Properties of the router\<close>

lemma state_of_message_cases:
  "(case state_of_message e tid topic mid body of
      Inl err \<Rightarrow> err = ValidationError
    | Inr s \<Rightarrow> lodash_get s [''kai_state'', ''thread_id''] = tid)"
  by (simp add: state_of_message_def Let_def)

text \<open>
  C1 fails on the code. For an envelope whose body has neither a non-empty string
  \<open>pipeline.id\<close> nor a non-empty string \<open>run.url\<close>, \<^verbatim>\<open>mkThreadId\<close> (and \<^verbatim>\<open>mk_thread_id\<close>)
  returns \<open>undefined\<close>: the \<^verbatim>\<open>NoThreadIdError\<close> is built and never thrown. \<^verbatim>\<open>makeState\<close>
  (and \<^verbatim>\<open>mk_state\<close>) goes on with that thread id: what it returns, if the schema check
  of \<open>kai_state\<close> lets it, is a state whose \<open>kai_state.thread_id\<close> is \<open>undefined\<close>, and the
  only error it can raise is the validator's.
\<close>

theorem missing_thread_id_not_raised:
  assumes "\<not> has_text (lodash_get (get_key m ''body'') [''pipeline'', ''id''])"
    and "\<not> has_text (lodash_get (get_key m ''body'') [''run'', ''url''])"
  shows "mkThreadId e m = JUndef \<and> mk_thread_id e m = JUndef
       \<and> (case makeState e m of
             Inl err \<Rightarrow> err = ValidationError
           | Inr s \<Rightarrow> lodash_get s [''kai_state'', ''thread_id''] = JUndef)
       \<and> (case mk_state e m of
             Inl err \<Rightarrow> err = ValidationError
           | Inr s \<Rightarrow> lodash_get s [''kai_state'', ''thread_id''] = JUndef)"
proof -
  have t: "thread_id_of_body e (get_key m ''body'') = JUndef"
    using assms by (auto simp: thread_id_of_body_def has_text_def Let_def)
  show ?thesis
    using state_of_message_cases [where e = e and tid = JUndef]
    by (simp add: mkThreadId_def mk_thread_id_def makeState_def mk_state_def t)
qed

theorem missing_thread_id_not_raised_witness:
  "mkThreadId quiet no_thread_msg = JUndef \<and> mk_thread_id quiet no_thread_msg = JUndef
   \<and> (case makeState quiet no_thread_msg of
         Inl err \<Rightarrow> err = ValidationError
       | Inr s \<Rightarrow> lodash_get s [''kai_state'', ''thread_id''] = JUndef)
   \<and> (case mk_state quiet no_thread_msg of
         Inl err \<Rightarrow> err = ValidationError
       | Inr s \<Rightarrow> lodash_get s [''kai_state'', ''thread_id''] = JUndef)"
proof -
  have a: "\<not> has_text (lodash_get (get_key no_thread_msg ''body'') [''pipeline'', ''id''])"
    by (simp add: has_text_def no_thread_msg_def)
  have b: "\<not> has_text (lodash_get (get_key no_thread_msg ''body'') [''run'', ''url''])"
    by (simp add: has_text_def no_thread_msg_def)
  show ?thesis by (rule missing_thread_id_not_raised [OF a b])
qed

section \<open>Properties of the sub-record merge\<close>

lemma map_of_put_field:
  "map_of (put_field k v fs) k' = (if k' = k then Some v else map_of fs k')"
  by (induction fs) auto

lemma get_key_missing: "k \<notin> fst ` set fs \<Longrightarrow> get_key (JObj fs) k = JUndef"
  by (simp add: map_of_eq_None_iff [THEN iffD2])

lemma put_field_absent: "k \<notin> fst ` set fs \<Longrightarrow> put_field k v fs = fs @ [(k, v)]"
  by (induction fs) auto

lemma get_key_put_field:
  "get_key (JObj (put_field k v fs)) k' = (if k' = k then v else get_key (JObj fs) k')"
  by (simp add: map_of_put_field)

lemma get_key_assignMergeValue:
  "get_key (JObj (assignMergeValue fs k v)) k' =
     (if k' = k then (if v = JUndef then get_key (JObj fs) k else v) else get_key (JObj fs) k')"
  by (auto simp: assignMergeValue_def map_of_put_field map_of_eq_None_iff [THEN iffD2])

lemma mergeWith_single:
  "mergeWith (JObj fs) (JObj [(k, sv)]) =
     JObj (assignMergeValue fs k (merge_value (get_key (JObj fs) k) sv))"
  by (simp add: mergeWith_def)


lemma baseMerge_array_fresh:
  "(\<And>x. x \<in> set xs \<Longrightarrow> merge_value JUndef x = x) \<Longrightarrow> baseMerge_array [] xs = xs"
  by (induction xs) auto

lemma baseMerge_fresh:
  "(\<And>kv. kv \<in> set fs \<Longrightarrow> merge_value JUndef (snd kv) = snd kv) \<Longrightarrow>
   distinct (map fst (acc @ fs)) \<Longrightarrow> baseMerge acc fs = acc @ fs"
proof (induction fs arbitrary: acc)
  case Nil
  then show ?case by simp
next
  case (Cons kv fs)
  obtain k v where kv: "kv = (k, v)" by fastforce
  have k: "k \<notin> fst ` set acc" using Cons.prems(2) kv by auto
  have v: "merge_value JUndef v = v" using Cons.prems(1) [of kv] kv by simp
  have "baseMerge (acc @ [(k, v)]) fs = (acc @ [(k, v)]) @ fs"
    using Cons.prems kv by (intro Cons.IH) auto
  then show ?case
    using k v kv
    by (simp add: assignMergeValue_def map_of_eq_None_iff [THEN iffD2] put_field_absent)
qed

lemma merge_value_fresh_aux:
  "wf_json v \<Longrightarrow> merge_value JUndef v = v"
proof (induction v)
  case (JArr xs)
  then have "baseMerge_array [] xs = xs"
    by (intro baseMerge_array_fresh) (auto simp: list_all_iff)
  then show ?case by (simp add: customMerge_def merge_value.simps)
next
  case (JObj fs)
  have "baseMerge [] fs = [] @ fs"
  proof (rule baseMerge_fresh)
    fix kv assume in_fs: "kv \<in> set fs"
    have w: "wf_json (snd kv)" using JObj.prems in_fs by (auto simp: list_all_iff)
    have s: "snd kv \<in> Basic_BNFs.snds kv" by (rule Basic_BNFs.snds.intros)
    show "merge_value JUndef (snd kv) = snd kv"
      by (rule JObj.IH [OF in_fs s w])
  next
    show "distinct (map fst ([] @ fs))" using JObj.prems by simp
  qed
  then show ?case by (simp add: customMerge_def merge_value.simps)
qed (simp_all add: customMerge_def merge_value.simps)

lemma merge_value_overwrites:
  assumes "wf_json sv" and "\<not> is_container old" and "\<not> (isString old \<and> sv = JStr [])"
  shows "merge_value old sv = sv"
proof -
  have c: "customMerge old sv = JUndef"
    using assms by (cases old; cases sv) (auto simp: customMerge_def)
  have "merge_value old sv = merge_value JUndef sv"
    using assms(2) c by (cases old; cases sv) (auto simp: customMerge_def merge_value.simps)
  then show ?thesis using assms(1) by (simp add: merge_value_fresh_aux)
qed

lemma length_baseMerge_array: "length (baseMerge_array os ss) = max (length os) (length ss)"
proof (induction ss arbitrary: os)
  case Nil
  show ?case by simp
next
  case (Cons s ss)
  show ?case using Cons by (cases os) (simp_all add: Let_def)
qed

lemma drop_baseMerge_array: "drop (length ss) (baseMerge_array os ss) = drop (length ss) os"
proof (induction ss arbitrary: os)
  case Nil
  show ?case by simp
next
  case (Cons s ss)
  show ?case using Cons by (cases os) (simp_all add: Let_def)
qed

lemma merge_value_empty_array: "isArray old \<Longrightarrow> merge_value old (JArr []) = old"
  by (cases old) (simp_all add: merge_value.simps customMerge_def)

lemma merge_value_empty_string: "isString old \<Longrightarrow> merge_value old (JStr []) = old"
  by (cases old) (simp_all add: merge_value.simps customMerge_def)

lemma merge_value_objects:
  "is_object old \<Longrightarrow> is_object sv \<Longrightarrow> merge_value old sv = mergeWith old sv"
  by (cases old; cases sv) (simp_all add: merge_value.simps customMerge_def mergeWith_def)

lemma mergeWith_objects_defined:
  "is_object old \<Longrightarrow> is_object sv \<Longrightarrow> mergeWith old sv \<noteq> JUndef"
  by (cases old; cases sv) (simp_all add: mergeWith_def)

lemma merge_value_arrays:
  "ss \<noteq> [] \<Longrightarrow> merge_value (JArr os) (JArr ss) = JArr (baseMerge_array os ss)"
  by (simp add: merge_value.simps customMerge_def)

lemma merge_value_undef: "merge_value old JUndef = JUndef"
  by (simp add: merge_value.simps customMerge_def)

lemma merge_value_scalar:
  "\<not> is_container sv \<Longrightarrow> \<not> (isString old \<and> sv = JStr []) \<Longrightarrow> merge_value old sv = sv"
  by (cases sv; cases old) (auto simp: merge_value.simps customMerge_def)

lemma merged_field:
  "get_key (mergeWith (JObj fs) (JObj [(k, sv)])) k' =
     (if k' = k
      then (if merge_value (get_key (JObj fs) k) sv = JUndef then get_key (JObj fs) k
            else merge_value (get_key (JObj fs) k) sv)
      else get_key (JObj fs) k')"
  by (simp add: mergeWith_single get_key_assignMergeValue del: get_key.simps)




section \<open>Properties of findOrCreate\<close>

text \<open>
  C10. Where the database does not throw, \<^verbatim>\<open>findOrCreate(type, aid)\<close> on a collection that
  holds a document for \<open>(type, aid)\<close> leaves the whole collection as the operation found
  it and returns that document as stored (once it passes the \<open>db_artifact\<close> schema check;
  if it does not, the validator's error is raised and the collection is unchanged all the
  same). Only where there is no such document is one added, and that one has
  \<open>_version = 1\<close>.
\<close>

theorem findOrCreate_existing_unchanged:
  assumes "collection a = Some docs" and "\<not> db_throws e (ops a)"
  shows "case find (matches [(''type'', type), (''aid'', aid)]) (db_others e (ops a) docs) of
           Some d \<Rightarrow>
             collection (snd (findOrCreate e a type aid)) = Some (db_others e (ops a) docs)
             \<and> fst (findOrCreate e a type aid) =
                 (if is_valid e ''db_artifact'' d then Inr d else Inl ValidationError)
         | None \<Rightarrow>
             collection (snd (findOrCreate e a type aid)) =
               Some (db_others e (ops a) docs @
                     [JObj [(''_id'', JNum (next_oid a)), (''type'', bson type), (''aid'', bson aid),
                            (''_version'', JNum 1)]])"
  using assms
  by (auto simp: findOrCreate_def db_turn_def Let_def split: option.splits)

theorem findOrCreate_existing_unchanged_witness:
  "collection (snd (findOrCreate quiet db_with_doc (JStr ''koji-build'') (JStr ''42'')))
     = Some [stored_doc]
   \<and> fst (findOrCreate quiet db_with_doc (JStr ''koji-build'') (JStr ''42'')) = Inr stored_doc
   \<and> collection (snd (findOrCreate quiet db_with_doc (JStr ''koji-build'') (JStr ''43'')))
     = Some [stored_doc,
             JObj [(''_id'', JNum 101), (''type'', JStr ''koji-build''), (''aid'', JStr ''43''),
                   (''_version'', JNum 1)]]"
proof -
  have c: "collection db_with_doc = Some [stored_doc]"
    by (simp add: db_with_doc_def)
  have t: "\<not> db_throws quiet (ops db_with_doc)"
    by (simp add: quiet_def)
  show ?thesis
    using findOrCreate_existing_unchanged [OF c t, of "JStr ''koji-build''" "JStr ''42''"]
          findOrCreate_existing_unchanged [OF c t, of "JStr ''koji-build''" "JStr ''43''"]
    by (simp add: quiet_def db_with_doc_def stored_doc_def matches_def)
qed

section \<open>Properties of the read-modify-write loop\<close>

lemma add_loop_invoked_le:
  "snd (snd (add_loop e h m a n k)) \<le> k + (n - 1)"
proof (induction n arbitrary: a k)
  case 0
  show ?case by (subst add_loop.simps) simp
next
  case (Suc n)
  have step: "snd (snd (add_loop e h m a' n (Suc k))) \<le> k + n" if "0 < n" for a'
    using Suc.IH [of a' "Suc k"] that by simp
  show ?case
    by (subst add_loop.simps)
       (auto simp: Let_def step split: prod.splits sum.splits option.splits)
qed


lemma add_invoked_le: "snd (snd (add e a m)) \<le> 29"
  using add_loop_invoked_le [of e _ m a 30 0]
  by (auto simp: add_def split: option.splits)

text \<open>
  C2 fails on the code. \<^verbatim>\<open>retries_left\<close> starts at 30, but the loop runs only while it is
  above 1 and counts down before the attempt: whatever the handler, the message and the
  database, \<^verbatim>\<open>add\<close> invokes the handler at most 29 times. With a database whose update
  throws every time, the test-queued envelope is given up ("All attempts failed") after
  exactly 29 attempts; a 30th is never made.
\<close>

theorem add_gives_up_after_29_attempts:
  "snd (snd (add e a m)) \<le> 29
   \<and> fst (add failing_cas empty_db (msg_queued 42)) = Inl AllAttemptsFailed
   \<and> snd (snd (add failing_cas empty_db (msg_queued 42))) = 29"
proof -
  have "case add failing_cas empty_db (msg_queued 42) of
          (r, a, n) \<Rightarrow> r = Inl AllAttemptsFailed \<and> n = 29"
    by code_simp
  then show ?thesis using add_invoked_le by (simp add: case_prod_beta)
qed

text \<open>
  What \<^verbatim>\<open>mk_update_set\<close> returns, for all documents: the pairs of a leaf path of the
  proposal and its value there, where the value is neither \<open>null\<close> nor \<open>undefined\<close> and
  equals the persisted value at no leaf path of the persisted document (whose value is
  neither \<open>null\<close> nor \<open>undefined\<close>).
\<close>

theorem mk_update_set_membership:
  "(p, v) \<in> set (mk_update_set present newdata) \<longleftrightarrow>
     p \<in> set (paths_mongodb_pack_array newdata) \<and> v = lodash_get newdata p
     \<and> v \<noteq> JNull \<and> v \<noteq> JUndef
     \<and> (\<forall>q \<in> set (paths_mongodb_pack_array present).
           lodash_get present q \<noteq> JNull \<and> lodash_get present q \<noteq> JUndef \<longrightarrow>
           \<not> is_equal v (lodash_get present q))"
  by (auto simp: mk_update_set_def drop_empty_paths_def differenceWith_def
        path_mongodb_to_lodash_def Let_def list_ex_iff)

theorem mk_update_set_membership_witness:
  "([''current_state_lenghts'', ''queued''], JNum 0)
     \<in> set (mk_update_set doc_after_queued proposal_after_complete)
   \<and> ([''current_state_lenghts'', ''complete''], JNum 1)
     \<notin> set (mk_update_set doc_after_queued proposal_after_complete)"
  using mk_update_set_membership [of "[''current_state_lenghts'', ''queued'']" "JNum 0"
          doc_after_queued proposal_after_complete]
        mk_update_set_membership [of "[''current_state_lenghts'', ''complete'']" "JNum 1"
          doc_after_queued proposal_after_complete]
  by (simp add: doc_after_queued_def proposal_after_complete_def)

lemma get_key_json_set:
  "is_object d \<Longrightarrow> get_key (json_set d k v) k' = (if k' = k then v else get_key d k')"
  by (cases d) (simp_all add: json_set_def map_of_put_field)

lemma is_object_json_set: "is_object d \<Longrightarrow> is_object (json_set d k v)"
  by (cases d) (simp_all add: json_set_def)

text \<open>
  The handler's de-duplication. Where the document that \<^verbatim>\<open>findOrCreate\<close> returns already
  holds a state with the message's \<open>message_id\<close>, \<^verbatim>\<open>handler_rpm_build_test_common\<close> appends
  nothing: the proposal has the same \<open>states\<close>, and differs from the document in
  \<open>rpm_build\<close> at most (the derived fields are not refreshed).
\<close>

theorem handler_keeps_states_of_known_message:
  assumes body: "\<not> nullish (get_key m ''body'')"
    and art: "\<not> nullish (get_key (get_key m ''body'') ''artifact'')"
    and found: "findOrCreate e a (get_key (get_key (get_key m ''body'') ''artifact'') ''type'')
                  (JStr (lodash_toString (get_key (get_key (get_key m ''body'') ''artifact'') ''id'')))
                = (Inr doc, a1)"
    and obj: "is_object doc"
    and st: "mk_state e m = Inr new_state"
    and arr: "get_key doc ''states'' = JArr xs"
    and dup: "get_key m ''message_id'' \<in> set (map (\<lambda>s. lodash_get s [''kai_state'', ''msg_id'']) xs)"
  shows "\<exists>r. handler_rpm_build_test_common e a m = (Inr r, a1)
            \<and> get_key r ''states'' = JArr xs
            \<and> (\<forall>k. k \<noteq> ''rpm_build'' \<longrightarrow> get_key r k = get_key doc k)"
  using assms
  by (simp add: handler_rpm_build_test_common_def Let_def nullish_def get_key_json_set
        is_object_json_set del: get_key.simps)

theorem handler_keeps_states_of_known_message_witness:
  "\<exists>r. handler_rpm_build_test_common quiet db_with_state (msg_queued 42)
           = (Inr r, db_with_state\<lparr>ops := 1\<rparr>)
        \<and> get_key r ''states'' = JArr [state_entry ''ID:1'' ''PIPE-1'' ''queued'' 1640995200000]
        \<and> (\<forall>k. k \<noteq> ''rpm_build'' \<longrightarrow> get_key r k = get_key doc_with_state k)"
proof -
  have body: "\<not> nullish (get_key (msg_queued 42) ''body'')"
    by (simp add: msg_queued_def nullish_def)
  have art: "\<not> nullish (get_key (get_key (msg_queued 42) ''body'') ''artifact'')"
    by (simp add: msg_queued_def nullish_def)
  have found: "findOrCreate quiet db_with_state
                 (get_key (get_key (get_key (msg_queued 42) ''body'') ''artifact'') ''type'')
                 (JStr (lodash_toString
                    (get_key (get_key (get_key (msg_queued 42) ''body'') ''artifact'') ''id'')))
               = (Inr doc_with_state, db_with_state\<lparr>ops := 1\<rparr>)"
    by code_simp
  have obj: "is_object doc_with_state"
    by (simp add: doc_with_state_def)
  obtain new_state where st: "mk_state quiet (msg_queued 42) = Inr new_state"
    by (simp add: mk_state_def state_of_message_def quiet_def Let_def)
  have arr: "get_key doc_with_state ''states''
               = JArr [state_entry ''ID:1'' ''PIPE-1'' ''queued'' 1640995200000]"
    by (simp add: doc_with_state_def)
  have dup: "get_key (msg_queued 42) ''message_id''
               \<in> set (map (\<lambda>s. lodash_get s [''kai_state'', ''msg_id''])
                        [state_entry ''ID:1'' ''PIPE-1'' ''queued'' 1640995200000])"
    by (simp add: msg_queued_def state_entry_def)
  show ?thesis
    by (rule handler_keeps_states_of_known_message [OF body art found obj st arr dup])
qed

text \<open>
  C3 fails on the code. The comparator handed to \<^verbatim>\<open>_.differenceWith\<close> compares the
  proposal's value at the new path with the persisted value at every old path, not at
  the same path: a changed value is dropped from the update set as soon as it equals the
  old value of some other path. After a test-queued event and the test-complete event of
  the same thread, \<open>current_state_lenghts.complete = 1\<close> is new (the persisted document has
  no such path), yet the update set lacks it, because the persisted
  \<open>current_state_lenghts.queued\<close> is 1.
\<close>

theorem mk_update_set_drops_changed_path:
  "mk_update_set doc_after_queued proposal_after_complete
     = [([''current_state_lenghts'', ''queued''], JNum 0)]
   \<and> lodash_get proposal_after_complete [''current_state_lenghts'', ''complete''] = JNum 1
   \<and> lodash_get doc_after_queued [''current_state_lenghts'', ''complete''] = JUndef"
  by code_simp

text \<open>
  C4 fails on the code, by the defect of C3. The test-queued envelope for Koji task 1 is
  added to an empty collection: the new document has \<open>_version = 1\<close>, so the proposal's
  \<open>rpm_build.task_id = 1\<close> equals a persisted value and is left out of the first write
  (\<open>_version\<close> becomes 2). The same envelope again: no state is appended, but now nothing
  persisted equals 1, the update set is \<open>{rpm_build.task_id: 1}\<close>, a second write is made
  and \<open>_version\<close> becomes 3.
\<close>

theorem duplicate_delivery_writes_again:
  "versions (fst (snd (add quiet empty_db (msg_queued 1)))) = [JNum 2]
   \<and> versions (fst (snd (add quiet (fst (snd (add quiet empty_db (msg_queued 1)))) (msg_queued 1))))
     = [JNum 3]
   \<and> map (\<lambda>d. length (elements (get_key d ''states'')))
       (the (collection (fst (snd (add quiet (fst (snd (add quiet empty_db (msg_queued 1))))
          (msg_queued 1)))))) = [1]"
  by code_simp

section \<open>Properties of the derived fields\<close>

lemma set_uniq: "set (uniq xs) = set xs"
  by (simp add: uniq_def)

lemma distinct_uniq: "distinct (uniq xs)"
  by (simp add: uniq_def)

lemma map_fst_groupBy: "map fst (groupBy f xs) = uniq (map (\<lambda>x. to_string (f x)) xs)"
  by (simp add: groupBy_def comp_def)

lemma in_groupBy:
  "(k, b) \<in> set (groupBy f xs) \<longleftrightarrow>
     k \<in> (\<lambda>x. to_string (f x)) ` set xs \<and> b = JArr (filter (\<lambda>x. to_string (f x) = k) xs)"
  by (auto simp: groupBy_def set_uniq)

lemma set_insert_desc: "set (insert_desc c x ys) = insert x (set ys)"
  by (induction ys) auto

lemma set_orderBy_desc: "set (orderBy_desc c xs) = set xs"
  by (induction xs) (simp_all add: orderBy_desc_def set_insert_desc)

lemma orderBy_desc_Cons: "orderBy_desc c (x # xs) = insert_desc c x (orderBy_desc c xs)"
  by (simp add: orderBy_desc_def)

lemma orderBy_desc_eq_Nil: "orderBy_desc c xs = [] \<longleftrightarrow> xs = []"
  using set_orderBy_desc [of c xs] by (metis set_empty)

lemma first_in_set: "xs \<noteq> [] \<Longrightarrow> first xs \<in> set xs"
  by (cases xs) auto

lemma first_insert_desc:
  "first (insert_desc c x ys) =
     (if ys = [] then x
      else if 0 \<le> compareAscending (c x) (c (first ys)) then x else first ys)"
  by (cases ys) auto

lemma compareAscending_nums: "0 \<le> compareAscending (JNum a) (JNum b) \<longleftrightarrow> b \<le> a"
  by (auto simp: compareAscending_def js_less_def)

lemma first_orderBy_desc_max:
  assumes "\<forall>x \<in> set xs. \<exists>n. c x = JNum n" and "xs \<noteq> []"
  shows "\<exists>n. c (first (orderBy_desc c xs)) = JNum n \<and>
           (\<forall>x \<in> set xs. \<exists>m. c x = JNum m \<and> m \<le> n)"
  using assms
proof (induction xs)
  case Nil
  then show ?case by simp
next
  case (Cons x xs)
  obtain a where a: "c x = JNum a" using Cons.prems(1) by auto
  show ?case
  proof (cases xs)
    case Nil
    then show ?thesis using a by (simp add: orderBy_desc_def)
  next
    case (Cons y ys)
    then have ne: "xs \<noteq> []" by simp
    obtain n where n: "c (first (orderBy_desc c xs)) = JNum n"
      and le: "\<forall>z \<in> set xs. \<exists>m. c z = JNum m \<and> m \<le> n"
      using Cons.IH Cons.prems(1) ne by auto
    have sorted_ne: "orderBy_desc c xs \<noteq> []" using ne by (simp add: orderBy_desc_eq_Nil)
    show ?thesis
    proof (cases "n \<le> a")
      case True
      then have "first (orderBy_desc c (x # xs)) = x"
        using sorted_ne a n
        by (simp add: orderBy_desc_Cons first_insert_desc compareAscending_nums)
      then show ?thesis using a le True by fastforce
    next
      case False
      then have "first (orderBy_desc c (x # xs)) = first (orderBy_desc c xs)"
        using sorted_ne a n
        by (simp add: orderBy_desc_Cons first_insert_desc compareAscending_nums)
      then show ?thesis using a n le False by fastforce
    qed
  qed
qed

lemma recent_for_each_thread_eq:
  "recent_for_each_thread states =
     map (\<lambda>k. first (orderBy_desc timestamp_of (filter (\<lambda>x. thread_key x = k) states)))
       (uniq (map thread_key states))"
  by (simp add: recent_for_each_thread_def groupBy_def comp_def thread_key_def [abs_def]
        timestamp_of_def [abs_def])

lemma recent_entry:
  assumes "k \<in> thread_key ` set states"
  shows "first (orderBy_desc timestamp_of (filter (\<lambda>x. thread_key x = k) states)) \<in> set states
       \<and> thread_key (first (orderBy_desc timestamp_of (filter (\<lambda>x. thread_key x = k) states))) = k"
proof -
  let ?g = "filter (\<lambda>x. thread_key x = k) states"
  have ne: "?g \<noteq> []" using assms by (auto simp: filter_empty_conv)
  then have "orderBy_desc timestamp_of ?g \<noteq> []" by (simp add: orderBy_desc_eq_Nil)
  then have "first (orderBy_desc timestamp_of ?g) \<in> set (orderBy_desc timestamp_of ?g)"
    by (rule first_in_set)
  then have "first (orderBy_desc timestamp_of ?g) \<in> set ?g" by (simp add: set_orderBy_desc)
  then show ?thesis by simp
qed

lemma map_thread_key_recent:
  "map thread_key (recent_for_each_thread states) = uniq (map thread_key states)"
proof -
  have "\<forall>k \<in> set (uniq (map thread_key states)).
          thread_key (first (orderBy_desc timestamp_of (filter (\<lambda>x. thread_key x = k) states))) = k"
    using recent_entry by (simp add: set_uniq)
  then show ?thesis
    by (simp add: recent_for_each_thread_eq comp_def map_idI)
qed

lemma recent_subset: "set (recent_for_each_thread states) \<subseteq> set states"
  using recent_entry by (auto simp: recent_for_each_thread_eq set_uniq)

lemma recent_is_latest:
  assumes num: "\<forall>s \<in> set states. \<exists>n. timestamp_of s = JNum n"
    and e: "e \<in> set (recent_for_each_thread states)"
  shows "\<exists>n. timestamp_of e = JNum n \<and>
           (\<forall>x \<in> set states. thread_key x = thread_key e \<longrightarrow> (\<exists>m. timestamp_of x = JNum m \<and> m \<le> n))"
proof -
  obtain k where k: "k \<in> thread_key ` set states"
    and ek: "e = first (orderBy_desc timestamp_of (filter (\<lambda>x. thread_key x = k) states))"
    using e by (auto simp: recent_for_each_thread_eq set_uniq)
  let ?g = "filter (\<lambda>x. thread_key x = k) states"
  have ne: "?g \<noteq> []" using k by (auto simp: filter_empty_conv)
  have gnum: "\<forall>x \<in> set ?g. \<exists>n. timestamp_of x = JNum n" using num by simp
  have tk: "thread_key e = k" using recent_entry [OF k] ek by simp
  from first_orderBy_desc_max [OF gnum ne]
  obtain n where n: "timestamp_of e = JNum n"
    and le: "\<forall>x \<in> set ?g. \<exists>m. timestamp_of x = JNum m \<and> m \<le> n"
    using ek by auto
  show ?thesis using n le tk by auto
qed

lemma flatten_no_arrays: "\<forall>x \<in> set xs. \<not> isArray x \<Longrightarrow> flatten xs = xs"
  by (induction xs rule: flatten.induct) auto


lemma actualize_fields:
  assumes "is_object d"
  shows "get_key (actualize_current_states d) ''current_state''
           = JObj (current_state_of (elements (get_key d ''states'')))"
    and "get_key (actualize_current_states d) ''current_state_lenghts''
           = JObj (current_state_lenghts_of (current_state_of (elements (get_key d ''states''))))"
  using assms
  by (cases d; simp add: actualize_current_states_def json_set_def Let_def map_of_put_field)+

lemma current_state_of_cases:
  assumes "(k, b) \<in> set (current_state_of states)"
  shows "(k \<in> (\<lambda>x. to_string (state_value x)) ` set (flatten (recent_for_each_thread states))
          \<and> b = JArr (filter (\<lambda>x. to_string (state_value x) = k)
                       (flatten (recent_for_each_thread states))))
       \<or> (k \<in> to_string ` set (known_states states) \<and> b = JArr [])"
  using assms
  by (auto simp: current_state_of_def Let_def in_groupBy set_uniq state_value_def [abs_def])

lemma keys_append_filter:
  "fst ` set (G @ filter (\<lambda>kv. fst kv \<notin> fst ` set G) E) = fst ` set G \<union> fst ` set E"
proof (intro equalityI subsetI)
  fix x assume "x \<in> fst ` set (G @ filter (\<lambda>kv. fst kv \<notin> fst ` set G) E)"
  then show "x \<in> fst ` set G \<union> fst ` set E" by auto
next
  fix x assume x: "x \<in> fst ` set G \<union> fst ` set E"
  show "x \<in> fst ` set (G @ filter (\<lambda>kv. fst kv \<notin> fst ` set G) E)"
  proof (cases "x \<in> fst ` set G")
    case True
    then show ?thesis by auto
  next
    case False
    then obtain kv where "kv \<in> set E" "fst kv = x" using x by auto
    then have "kv \<in> set (filter (\<lambda>kv. fst kv \<notin> fst ` set G) E)" using False by simp
    then show ?thesis using \<open>fst kv = x\<close> by (metis UnCI image_eqI set_append)
  qed
qed

lemma keys_groupBy: "fst ` set (groupBy f xs) = (\<lambda>x. to_string (f x)) ` set xs"
proof -
  have "set (map fst (groupBy f xs)) = set (uniq (map (\<lambda>x. to_string (f x)) xs))"
    by (simp only: map_fst_groupBy)
  then show ?thesis by (simp add: set_uniq)
qed

lemma keys_empty_buckets:
  "fst ` set (map (\<lambda>k. (k, JArr [])) (uniq (map to_string ks))) = to_string ` set ks"
  by (simp add: image_image set_uniq)

lemma keys_current_state_of:
  "fst ` set (current_state_of states) =
     (\<lambda>x. to_string (state_value x)) ` set (flatten (recent_for_each_thread states))
     \<union> to_string ` set (known_states states)"
  unfolding current_state_of_def Let_def state_value_def [abs_def, symmetric]
  by (subst keys_append_filter) (simp only: keys_groupBy keys_empty_buckets)

lemma keys_lenghts: "fst ` set (current_state_lenghts_of cs) = fst ` set cs"
  by (force simp: current_state_lenghts_of_def)

lemma map_of_lenghts:
  "map_of (current_state_lenghts_of cs) k =
     map_option (\<lambda>b. JNum (int (size_json b))) (map_of cs k)"
  by (induction cs) (auto simp: current_state_lenghts_of_def)

lemma numeric_not_array: "timestamp_of s = JNum n \<Longrightarrow> \<not> isArray s"
  by (cases s) (auto simp: timestamp_of_def)

lemma has_text_state_not_array: "has_text (state_value s) \<Longrightarrow> \<not> isArray s"
  by (cases s) (auto simp: state_value_def has_text_def)

text \<open>
  C6. Let the entries of \<open>states\<close> all carry a numeric \<open>kai_state.timestamp\<close>. After the
  refresh, every entry of every bucket \<open>current_state[s]\<close> is an entry of \<open>states\<close> whose
  state is \<open>s\<close> and whose timestamp is the greatest among the entries of \<open>states\<close> of its
  thread; and every thread that occurs in \<open>states\<close> has exactly one entry among the buckets.
\<close>

theorem current_state_holds_latest_per_thread:
  assumes obj: "is_object d"
    and num: "\<forall>s \<in> set (elements (get_key d ''states'')). \<exists>n. timestamp_of s = JNum n"
  shows "(\<forall>kb \<in> set (fields_of (get_key (actualize_current_states d) ''current_state'')).
            \<forall>e \<in> set (elements (snd kb)).
              e \<in> set (elements (get_key d ''states''))
              \<and> to_string (state_value e) = fst kb
              \<and> (\<exists>n. timestamp_of e = JNum n
                   \<and> (\<forall>x \<in> set (elements (get_key d ''states'')).
                        thread_key x = thread_key e \<longrightarrow>
                        (\<exists>m. timestamp_of x = JNum m \<and> m \<le> n))))
       \<and> (\<forall>x \<in> set (elements (get_key d ''states'')).
            \<exists>!e. e \<in> bucket_entries (get_key (actualize_current_states d) ''current_state'')
                 \<and> thread_key e = thread_key x)"
proof -
  let ?states = "elements (get_key d ''states'')"
  let ?recent = "recent_for_each_thread ?states"
  have cs: "get_key (actualize_current_states d) ''current_state'' = JObj (current_state_of ?states)"
    by (rule actualize_fields(1) [OF obj])
  have no_arr: "\<forall>x \<in> set ?recent. \<not> isArray x"
    using recent_subset [of ?states] num numeric_not_array by blast
  have flat: "flatten ?recent = ?recent"
    by (rule flatten_no_arrays [OF no_arr])
  have entries: "bucket_entries (JObj (current_state_of ?states)) = set ?recent"
  proof
    show "bucket_entries (JObj (current_state_of ?states)) \<subseteq> set ?recent"
      using current_state_of_cases [of _ _ ?states]
      by (fastforce simp: bucket_entries_def flat)
    show "set ?recent \<subseteq> bucket_entries (JObj (current_state_of ?states))"
    proof
      fix e assume e: "e \<in> set ?recent"
      let ?k = "to_string (state_value e)"
      have "(?k, JArr (filter (\<lambda>x. to_string (state_value x) = ?k) ?recent))
              \<in> set (current_state_of ?states)"
        using e
        by (auto simp: current_state_of_def Let_def in_groupBy flat state_value_def [abs_def])
      then show "e \<in> bucket_entries (JObj (current_state_of ?states))"
        using e by (force simp: bucket_entries_def)
    qed
  qed
  have part1: "\<forall>kb \<in> set (current_state_of ?states). \<forall>e \<in> set (elements (snd kb)).
      e \<in> set ?states \<and> to_string (state_value e) = fst kb
      \<and> (\<exists>n. timestamp_of e = JNum n
           \<and> (\<forall>x \<in> set ?states. thread_key x = thread_key e \<longrightarrow>
                (\<exists>m. timestamp_of x = JNum m \<and> m \<le> n)))"
  proof (intro ballI)
    fix kb e assume kb: "kb \<in> set (current_state_of ?states)" and e: "e \<in> set (elements (snd kb))"
    obtain k b where kbe: "kb = (k, b)" by fastforce
    from current_state_of_cases [of k b ?states] kb kbe e
    have er: "e \<in> set ?recent" and ek: "to_string (state_value e) = k"
      by (auto simp: flat)
    have "e \<in> set ?states" using er recent_subset by blast
    moreover note recent_is_latest [OF num er]
    ultimately show "e \<in> set ?states \<and> to_string (state_value e) = fst kb
      \<and> (\<exists>n. timestamp_of e = JNum n
           \<and> (\<forall>x \<in> set ?states. thread_key x = thread_key e \<longrightarrow>
                (\<exists>m. timestamp_of x = JNum m \<and> m \<le> n)))"
      using ek kbe by simp
  qed
  have inj: "inj_on thread_key (set ?recent)"
  proof -
    have "distinct (map thread_key ?recent)"
      by (simp add: map_thread_key_recent distinct_uniq)
    then show ?thesis by (simp add: distinct_map)
  qed
  have part2: "\<forall>x \<in> set ?states. \<exists>!e. e \<in> set ?recent \<and> thread_key e = thread_key x"
  proof
    fix x assume x: "x \<in> set ?states"
    have "thread_key x \<in> set (map thread_key ?recent)"
      using x by (simp add: map_thread_key_recent set_uniq)
    then obtain e where e: "e \<in> set ?recent" "thread_key e = thread_key x" by auto
    show "\<exists>!e. e \<in> set ?recent \<and> thread_key e = thread_key x"
    proof (rule ex1I [of _ e])
      show "e \<in> set ?recent \<and> thread_key e = thread_key x" using e by simp
    next
      fix e' assume "e' \<in> set ?recent \<and> thread_key e' = thread_key x"
      then have "e' \<in> set ?recent" and "thread_key e' = thread_key e" using e by simp_all
      then show "e' = e" using e(1) inj by (meson inj_onD)
    qed
  qed
  show ?thesis using part1 part2 by (simp add: cs entries)
qed

theorem current_state_holds_latest_per_thread_witness:
  "get_key (actualize_current_states doc_two_threads) ''current_state''
     = JObj [(''complete'', JArr [state_entry ''m2'' ''t1'' ''complete'' 5]),
             (''running'', JArr [state_entry ''m3'' ''t2'' ''running'' 3]),
             (''queued'', JArr [])]
   \<and> (\<exists>!e. e \<in> bucket_entries (get_key (actualize_current_states doc_two_threads) ''current_state'')
           \<and> thread_key e = thread_key (state_entry ''m1'' ''t1'' ''queued'' 1))
   \<and> (\<exists>n. timestamp_of (state_entry ''m2'' ''t1'' ''complete'' 5) = JNum n
         \<and> (\<exists>m. timestamp_of (state_entry ''m1'' ''t1'' ''queued'' 1) = JNum m \<and> m \<le> n))"
proof -
  have ev: "get_key (actualize_current_states doc_two_threads) ''current_state''
     = JObj [(''complete'', JArr [state_entry ''m2'' ''t1'' ''complete'' 5]),
             (''running'', JArr [state_entry ''m3'' ''t2'' ''running'' 3]),
             (''queued'', JArr [])]"
    by code_simp
  have obj: "is_object doc_two_threads"
    by (simp add: doc_two_threads_def)
  have num: "\<forall>s \<in> set (elements (get_key doc_two_threads ''states'')). \<exists>n. timestamp_of s = JNum n"
    by (simp add: doc_two_threads_def state_entry_def timestamp_of_def)
  have m1: "state_entry ''m1'' ''t1'' ''queued'' 1 \<in> set (elements (get_key doc_two_threads ''states''))"
    by (simp add: doc_two_threads_def)
  have same: "thread_key (state_entry ''m1'' ''t1'' ''queued'' 1)
                = thread_key (state_entry ''m2'' ''t1'' ''complete'' 5)"
    by (simp add: thread_key_def state_entry_def)
  note main = current_state_holds_latest_per_thread [OF obj num]
  have one: "\<exists>!e. e \<in> bucket_entries (get_key (actualize_current_states doc_two_threads) ''current_state'')
           \<and> thread_key e = thread_key (state_entry ''m1'' ''t1'' ''queued'' 1)"
    using main m1 by blast
  have kb: "(''complete'', JArr [state_entry ''m2'' ''t1'' ''complete'' 5])
              \<in> set (fields_of (get_key (actualize_current_states doc_two_threads) ''current_state''))"
    by (simp add: ev)
  have "\<exists>n. timestamp_of (state_entry ''m2'' ''t1'' ''complete'' 5) = JNum n
         \<and> (\<forall>x \<in> set (elements (get_key doc_two_threads ''states'')).
              thread_key x = thread_key (state_entry ''m2'' ''t1'' ''complete'' 5) \<longrightarrow>
              (\<exists>m. timestamp_of x = JNum m \<and> m \<le> n))"
    using conjunct1 [OF main, THEN bspec, OF kb] by simp
  then have latest: "\<exists>n. timestamp_of (state_entry ''m2'' ''t1'' ''complete'' 5) = JNum n
         \<and> (\<exists>m. timestamp_of (state_entry ''m1'' ''t1'' ''queued'' 1) = JNum m \<and> m \<le> n)"
    using m1 same by blast
  show ?thesis using ev one latest by blast
qed




end
